theory Spec2Isabelle
  imports Complex_Main
begin

section \<open>Transmission-line notebook: voltage and current at the line input\<close>



text \<open>
  The code cells compute \<^verbatim>\<open>V_in = V_s * Z_in / (Z_s + Z_in)\<close> and
  \<^verbatim>\<open>I_in = V_s / (Z_s + Z_in)\<close> in binary floating point. Each arithmetic operator on
  real operands is one IEEE 754 binary64 operation: the exact result, rounded to the
  nearest number with a 53-bit significand, ties to the even significand, with
  gradual underflow below \<open>2\<^sup>-\<^sup>1\<^sup>0\<^sup>2\<^sup>2\<close> and overflow to infinity from \<open>2\<^sup>1\<^sup>0\<^sup>2\<^sup>4\<close> on.

  The notebook's own \<^verbatim>\<open>Z_in\<close> is a complex128 array, whose products and quotients the
  array library computes from several binary64 operations by routines that are not
  among the source files. The model covers the two expressions on real operands (every
  operand a binary64 number, an integer operand converted exactly), where the
  arithmetic is fixed by the standard. The sign of a zero is not modelled.
\<close>


text \<open>
  The binary exponent of a number: the \<open>e\<close> with \<open>2\<^sup>e \<le> |x| < 2\<^sup>e\<^sup>+\<^sup>1\<close>, searched
  upwards from 0 or downwards from -1 and kept within the exponents of binary64,
  -1022 (where the subnormal numbers begin) to 1024 (overflow).
\<close>

fun exp_up :: "nat \<Rightarrow> real \<Rightarrow> int \<Rightarrow> int" where
  "exp_up 0 x e = e"
| "exp_up (Suc n) x e = (if x < 2 powi (e + 1) then e else exp_up n x (e + 1))"







text \<open>
  Modelled from the spec: the library functions \<^verbatim>\<open>zl_2_Gamma0\<close> and \<^verbatim>\<open>zl_2_swr\<close>
  (module \<^verbatim>\<open>skrf.tlineFunctions\<close>) are called by the notebook but are not among the
  source files. The spec gives the reflection coefficient of a load \<open>Z\<^sub>L\<close> on a line
  \<open>Z\<^sub>0\<close> as \<open>(Z\<^sub>L - Z\<^sub>0) / (Z\<^sub>L + Z\<^sub>0)\<close> and the standing wave ratio as
  \<open>(1 + |\<Gamma>|) / (1 - |\<Gamma>|)\<close>, "derived from the magnitude of reflection coefficient".
  The argument order \<open>(z0, zl)\<close> is the one of the notebook's calls.
\<close>

definition zl_2_Gamma0 :: "complex \<Rightarrow> complex \<Rightarrow> complex" where
  "zl_2_Gamma0 z0 zl = (zl - z0) / (zl + z0)"

definition zl_2_swr :: "complex \<Rightarrow> complex \<Rightarrow> real" where
  "zl_2_swr z0 zl = (1 + cmod (zl_2_Gamma0 z0 zl)) / (1 - cmod (zl_2_Gamma0 z0 zl))"


section \<open>Networks and the numpy array of S-parameters\<close>

text \<open>
  Everything that can go wrong in the 4-port notebook is an exception that is never
  caught there. The names follow the spec's taxonomy, plus the exceptions of reading a
  file and of numpy indexing and broadcasting.
\<close>

datatype error =
    IOError
  | InsufficientDataError
  | SingularSystemError
  | FrequencyMismatchError
  | ValueError
  | IndexError

text \<open>
  A three-dimensional complex array of shape \<open>(nfreq, nrows, ncols)\<close>, as
  \<^verbatim>\<open>np.zeros((f, 4, 4), dtype=complex)\<close> creates it; \<open>item A f r c\<close> is \<^verbatim>\<open>A[f, r, c]\<close>.
  The shape is part of the value, so an array without frequency points still has its
  port dimensions.
\<close>

record ndarray =
  nfreq :: nat
  nrows :: nat
  ncols :: nat
  item :: "nat \<Rightarrow> nat \<Rightarrow> nat \<Rightarrow> complex"

definition zeros :: "nat \<Rightarrow> nat \<Rightarrow> nat \<Rightarrow> ndarray" where
  "zeros n r c = \<lparr>nfreq = n, nrows = r, ncols = c, item = (\<lambda>f k l. 0)\<rparr>"

text \<open>
  \<^verbatim>\<open>A[:, a, b]\<close> read: the column of all frequency points, or IndexError when the
  port indices are outside the array.
\<close>

definition get_col :: "ndarray \<Rightarrow> nat \<Rightarrow> nat \<Rightarrow> error + complex list" where
  "get_col A a b =
     (if a < nrows A \<and> b < ncols A
      then Inr (map (\<lambda>f. item A f a b) [0..<nfreq A])
      else Inl IndexError)"

text \<open>
  \<^verbatim>\<open>A[:, a, b] = v\<close>: numpy stores \<open>v\<close> point by point when it has one value per
  frequency point, broadcasts a single value to all points, and raises ValueError for
  any other length.
\<close>

definition set_col :: "ndarray \<Rightarrow> nat \<Rightarrow> nat \<Rightarrow> complex list \<Rightarrow> error + ndarray" where
  "set_col A a b v =
     (if \<not> (a < nrows A \<and> b < ncols A) then Inl IndexError
      else if length v = nfreq A
        then Inr (A\<lparr>item := (\<lambda>f k l. if f < nfreq A \<and> k = a \<and> l = b then v ! f
                                      else item A f k l)\<rparr>)
      else if length v = 1
        then Inr (A\<lparr>item := (\<lambda>f k l. if f < nfreq A \<and> k = a \<and> l = b then v ! 0
                                      else item A f k l)\<rparr>)
      else Inl ValueError)"

text \<open>
  Modelled from the spec: the class \<^verbatim>\<open>skrf.Network\<close> is not among the source files. The
  spec's data model: a network is a frequency sweep (an ordered sequence of frequency
  points) with a complex port-by-port S-parameter matrix per frequency point.
\<close>

record network =
  frequency :: "real list"
  s :: ndarray

definition Network :: "real list \<Rightarrow> ndarray \<Rightarrow> network" where
  "Network fr A = \<lparr>frequency = fr, s = A\<rparr>"

text \<open>
  Modelled from the spec: the media class \<^verbatim>\<open>DefinedGammaZ0\<close> and its ideal standards
  are not among the source files. The spec names the ideal responses: short
  (\<open>\<Gamma> = -1\<close>), open (\<open>\<Gamma> = +1\<close>), match (\<open>\<Gamma> = 0\<close>) and a lossless,
  perfectly matched through, all on one frequency sweep, the one the media was given.
\<close>

record media =
  media_frequency :: "real list"
  Z0 :: complex

definition DefinedGammaZ0 :: "real list \<Rightarrow> complex \<Rightarrow> media" where
  "DefinedGammaZ0 fr z = \<lparr>media_frequency = fr, Z0 = z\<rparr>"

definition ideal :: "media \<Rightarrow> nat \<Rightarrow> (nat \<Rightarrow> nat \<Rightarrow> complex) \<Rightarrow> network" where
  "ideal line nports m =
     Network (media_frequency line)
       \<lparr>nfreq = length (media_frequency line), nrows = nports, ncols = nports,
        item = (\<lambda>f k l. m k l)\<rparr>"

definition media_short :: "media \<Rightarrow> nat \<Rightarrow> network" where
  "media_short line nports = ideal line nports (\<lambda>k l. if k = l then - 1 else 0)"

definition media_open :: "media \<Rightarrow> nat \<Rightarrow> network" where
  "media_open line nports = ideal line nports (\<lambda>k l. if k = l then 1 else 0)"

definition media_match :: "media \<Rightarrow> nat \<Rightarrow> network" where
  "media_match line nports = ideal line nports (\<lambda>k l. 0)"

definition media_thru :: "media \<Rightarrow> network" where
  "media_thru line = ideal line 2 (\<lambda>k l. if k = l then 0 else 1)"


section \<open>The 4-port notebook\<close>

text \<open>
  Modelled from the spec: the calibration class \<^verbatim>\<open>TwoPortOnePath\<close> (its constructor,
  \<^verbatim>\<open>run\<close> and \<^verbatim>\<open>apply_cal\<close>) is library code that is not among the source files. The
  spec describes the solve as deriving the error-term model once from the ideal and the
  measured standards, or failing, and \<^verbatim>\<open>apply_cal\<close> as a function of the stored error
  terms and a (forward, reverse) pair of raw measurements that has no side effect and
  yields a corrected 2-port, or fails; it gives no formulas for either. Both are
  therefore parameters of the notebook's model: \<open>TwoPortOnePath\<close> stands for
  constructing the calibration from ideals, measured standards, \<^verbatim>\<open>n_thrus\<close> and
  \<^verbatim>\<open>source_port\<close> and running it (\<^verbatim>\<open>cal.run()\<close>), which yields the error-term model
  \<open>'c\<close> or raises; \<open>apply_cal\<close> maps that model and the pair to the corrected
  network, or raises.
\<close>

record 'c library =
  TwoPortOnePath :: "network list \<Rightarrow> network list \<Rightarrow> nat \<Rightarrow> nat \<Rightarrow> error + 'c"
  apply_cal :: "'c \<Rightarrow> network \<times> network \<Rightarrow> error + network"



text \<open>
  The files under \<^verbatim>\<open>./data_MiniCircuits_splitter/\<close> are an input: \<^verbatim>\<open>skrf.Network(path)\<close>
  yields the network stored at \<open>path\<close> or raises.
\<close>

type_synonym files = "string \<Rightarrow> error + network"

text \<open>
  The notebook's variables that the assembly loop reads or writes: the calibration
  \<open>cal\<close> and the aggregate \<open>splitter_cal\<close>. \<open>history\<close> is a history variable: it
  records, in order, every invocation of \<open>apply_cal\<close> with its arguments and every
  slice assignment into \<^verbatim>\<open>splitter_cal.s\<close> with its target entry. Nothing reads it.
\<close>

datatype 'c event =
    is_ApplyCal: ApplyCal (model_of: 'c) (fwd_of: network) (rev_of: network)
  | Assign nat nat

record 'c nb_state =
  cal :: 'c
  splitter_cal :: network
  history :: "'c event list"

text \<open>
  A cell either runs to its end or stops at the first exception. The variables keep
  what was stored in them before the exception: Python does not undo assignments.
\<close>

datatype 'c outcome =
    is_Done: Done (state_of: "'c nb_state")
  | Raised (error_of: error) (state_of: "'c nb_state")

fun seq :: "('c nb_state \<Rightarrow> 'c outcome) list \<Rightarrow> 'c nb_state \<Rightarrow> 'c outcome" where
  "seq [] st = Done st"
| "seq (c # cs) st =
     (case c st of Done st' \<Rightarrow> seq cs st' | Raised e st' \<Rightarrow> Raised e st')"

text \<open>\<^verbatim>\<open>for x in xs: body(x)\<close>\<close>

definition for_in :: "'a list \<Rightarrow> ('a \<Rightarrow> 'c nb_state \<Rightarrow> 'c outcome) \<Rightarrow> 'c nb_state \<Rightarrow> 'c outcome" where
  "for_in xs body = seq (map body xs)"

text \<open>Python's \<^verbatim>\<open>'{}'.format(n)\<close> for a natural number: its decimal digits.\<close>

function str :: "nat \<Rightarrow> string" where
  "str n = (if n < 10 then [''0123456789'' ! n]
            else str (n div 10) @ [''0123456789'' ! (n mod 10)])"
  by pat_completeness auto
termination
  by (relation "measure id") auto

declare str.simps [simp del]

definition dut_raw_path :: "nat \<Rightarrow> nat \<Rightarrow> string" where
  "dut_raw_path a b = ''./data_MiniCircuits_splitter/dut_raw_'' @ str a @ str b @ ''.s2p''"

text \<open>
  \<^verbatim>\<open>splitter_cal.s[:, i, j] = dut_cal.s[:, a, b]\<close>: the right-hand side is evaluated
  first, then stored. The attribute \<^verbatim>\<open>s\<close> of a network is taken to hand out the
  network's own array, so that the slice assignment is, in the spec's words, written
  into the aggregate matrix.
\<close>

definition assign :: "nat \<Rightarrow> nat \<Rightarrow> network \<Rightarrow> nat \<Rightarrow> nat \<Rightarrow> 'c nb_state \<Rightarrow> 'c outcome" where
  "assign i j dut_cal a b st =
     (case get_col (s dut_cal) a b of
        Inl e \<Rightarrow> Raised e st
      | Inr v \<Rightarrow>
          (case set_col (s (splitter_cal st)) i j v of
             Inl e \<Rightarrow> Raised e st
           | Inr A \<Rightarrow>
               Done (st\<lparr>splitter_cal := (splitter_cal st)\<lparr>s := A\<rparr>,
                        history := history st @ [Assign i j]\<rparr>)))"

text \<open>The body of the nested loop, for \<open>i_src \<noteq> i_recv\<close>.\<close>

definition iteration :: "'c library \<Rightarrow> files \<Rightarrow> nat \<Rightarrow> nat \<Rightarrow> 'c nb_state \<Rightarrow> 'c outcome" where
  "iteration L fs i_src i_recv st =
     (case fs (dut_raw_path (i_recv + 1) (i_src + 1)) of
        Inl e \<Rightarrow> Raised e st
      | Inr dut_raw_fwd \<Rightarrow>
     (case fs (dut_raw_path (i_src + 1) (i_recv + 1)) of
        Inl e \<Rightarrow> Raised e st
      | Inr dut_raw_rev \<Rightarrow>
     (let st1 = st\<lparr>history := history st @ [ApplyCal (cal st) dut_raw_fwd dut_raw_rev]\<rparr>
      in case apply_cal L (cal st) (dut_raw_fwd, dut_raw_rev) of
        Inl e \<Rightarrow> Raised e st1
      | Inr dut_cal \<Rightarrow>
          seq [assign i_src i_src dut_cal 0 0,
               assign i_recv i_src dut_cal 1 0,
               assign i_src i_recv dut_cal 0 1,
               assign i_recv i_recv dut_cal 1 1] st1)))"

definition assembly_loop :: "'c library \<Rightarrow> files \<Rightarrow> 'c nb_state \<Rightarrow> 'c outcome" where
  "assembly_loop L fs =
     for_in [0..<4] (\<lambda>i_src.
       for_in [0..<4] (\<lambda>i_recv.
         if i_src \<noteq> i_recv then iteration L fs i_src i_recv else Done))"

text \<open>The first code cell: load the raw standards, build the ideals, run the calibration.\<close>

definition ideals :: "network \<Rightarrow> network list" where
  "ideals short_raw =
     (let line = DefinedGammaZ0 (frequency short_raw) 50
      in [media_short line 2, media_open line 2, media_match line 2, media_thru line])"

definition calibration_cell :: "'c library \<Rightarrow> files \<Rightarrow> error + network \<times> 'c" where
  "calibration_cell L fs =
     (case fs ''./data_MiniCircuits_splitter/cal_short_raw.s2p'' of
        Inl e \<Rightarrow> Inl e
      | Inr short_raw \<Rightarrow>
     (case fs ''./data_MiniCircuits_splitter/cal_open_raw.s2p'' of
        Inl e \<Rightarrow> Inl e
      | Inr open_raw \<Rightarrow>
     (case fs ''./data_MiniCircuits_splitter/cal_match_raw.s2p'' of
        Inl e \<Rightarrow> Inl e
      | Inr match_raw \<Rightarrow>
     (case fs ''./data_MiniCircuits_splitter/cal_thru_raw.s2p'' of
        Inl e \<Rightarrow> Inl e
      | Inr thru_raw \<Rightarrow>
     (case TwoPortOnePath L (ideals short_raw)
             [short_raw, open_raw, match_raw, thru_raw] 1 1 of
        Inl e \<Rightarrow> Inl e
      | Inr c \<Rightarrow> Inr (short_raw, c))))))"

text \<open>
  The second code cell: create the empty aggregate on the sweep of \<^verbatim>\<open>short_raw\<close>, then
  run the assembly loop.
\<close>

definition new_splitter_cal :: "network \<Rightarrow> network" where
  "new_splitter_cal short_raw =
     Network (frequency short_raw) (zeros (length (frequency short_raw)) 4 4)"

definition assembly_cell :: "'c library \<Rightarrow> files \<Rightarrow> network \<Rightarrow> 'c \<Rightarrow> 'c outcome" where
  "assembly_cell L fs short_raw c =
     assembly_loop L fs
       \<lparr>cal = c, splitter_cal = new_splitter_cal short_raw, history = []\<rparr>"

text \<open>Both cells in order; the second one runs only when the first raised nothing.\<close>

definition notebook :: "'c library \<Rightarrow> files \<Rightarrow> error + 'c outcome" where
  "notebook L fs =
     (case calibration_cell L fs of
        Inl e \<Rightarrow> Inl e
      | Inr (short_raw, c) \<Rightarrow> Inr (assembly_cell L fs short_raw c))"



section \<open>Vocabulary for the properties of the assembly loop\<close>

text \<open>
  The ordered pairs \<open>(i_src, i_recv)\<close> for which the loop body runs, in loop order.
\<close>

definition loop_pairs :: "(nat \<times> nat) list" where
  "loop_pairs = [(i_src, i_recv). i_src \<leftarrow> [0..<4], i_recv \<leftarrow> [0..<4], i_src \<noteq> i_recv]"

text \<open>Running the loop body for a list of pairs, in order.\<close>

definition run_pairs :: "'c library \<Rightarrow> files \<Rightarrow> (nat \<times> nat) list \<Rightarrow> 'c nb_state \<Rightarrow> 'c outcome" where
  "run_pairs L fs ps = for_in ps (\<lambda>(i_src, i_recv). iteration L fs i_src i_recv)"

text \<open>
  The corrected 2-port \<^verbatim>\<open>dut_cal\<close> of the pair \<open>(i_src, i_recv)\<close>: what the loop body
  computes from the two files of the pair and the calibration \<open>c\<close>, before it touches
  the aggregate.
\<close>

definition dut_cal_of :: "'c library \<Rightarrow> files \<Rightarrow> 'c \<Rightarrow> nat \<Rightarrow> nat \<Rightarrow> error + network" where
  "dut_cal_of L fs c i_src i_recv =
     (case fs (dut_raw_path (i_recv + 1) (i_src + 1)) of
        Inl e \<Rightarrow> Inl e
      | Inr dut_raw_fwd \<Rightarrow>
     (case fs (dut_raw_path (i_src + 1) (i_recv + 1)) of
        Inl e \<Rightarrow> Inl e
      | Inr dut_raw_rev \<Rightarrow> apply_cal L c (dut_raw_fwd, dut_raw_rev)))"

text \<open>
  The value that a successful slice assignment from \<^verbatim>\<open>dut.s[:, a, b]\<close> leaves at
  frequency index \<open>f\<close> of the target: \<^verbatim>\<open>dut.s[f, a, b]\<close>, or \<^verbatim>\<open>dut.s[0, a, b]\<close> when
  \<open>dut\<close> has a single frequency point, which numpy broadcasts.
\<close>

definition stored :: "network \<Rightarrow> nat \<Rightarrow> nat \<Rightarrow> nat \<Rightarrow> complex" where
  "stored dut a b f = item (s dut) (if nfreq (s dut) = 1 then 0 else f) a b"

text \<open>
  The port of the corrected 2-port that stands for port \<open>k\<close> of the 4-port in the
  iteration with source \<open>i_src\<close>: port 0 is the source, port 1 the receiver.
\<close>

definition port_of :: "nat \<Rightarrow> nat \<Rightarrow> nat" where
  "port_of i_src k = (if k = i_src then 0 else 1)"

text \<open>The entries \<open>(k, l)\<close> that the iteration for the pair \<open>p\<close> assigns to.\<close>

definition touches :: "nat \<times> nat \<Rightarrow> nat \<Rightarrow> nat \<Rightarrow> bool" where
  "touches p k l \<longleftrightarrow> (k = fst p \<or> k = snd p) \<and> (l = fst p \<or> l = snd p)"

text \<open>
  What no step of the loop changes: the calibration, and the sweep and shape of the
  aggregate.
\<close>

definition same_frame :: "'c nb_state \<Rightarrow> 'c nb_state \<Rightarrow> bool" where
  "same_frame st st' \<longleftrightarrow>
     cal st' = cal st \<and>
     frequency (splitter_cal st') = frequency (splitter_cal st) \<and>
     nfreq (s (splitter_cal st')) = nfreq (s (splitter_cal st)) \<and>
     nrows (s (splitter_cal st')) = nrows (s (splitter_cal st)) \<and>
     ncols (s (splitter_cal st')) = ncols (s (splitter_cal st))"

text \<open>The last iteration, in loop order, whose pair contains the port \<open>i\<close>.\<close>

definition last_pair_with :: "nat \<Rightarrow> nat \<times> nat" where
  "last_pair_with i = last (filter (\<lambda>(i_src, i_recv). i_src = i \<or> i_recv = i) loop_pairs)"

text \<open>The events recorded between two states of one run.\<close>

definition new_events :: "'c nb_state \<Rightarrow> 'c nb_state \<Rightarrow> 'c event list" where
  "new_events st st' = drop (length (history st)) (history st')"


text \<open>
  An \<open>apply_cal\<close> event that belongs to the pair \<open>p\<close>: it used the calibration \<open>c\<close>,
  and its arguments are the networks stored in the two files of the pair.
\<close>

definition called_for :: "files \<Rightarrow> 'c \<Rightarrow> 'c event \<Rightarrow> nat \<times> nat \<Rightarrow> bool" where
  "called_for fs c e p =
     (case e of
        ApplyCal c' dut_raw_fwd dut_raw_rev \<Rightarrow>
          c' = c \<and> fs (dut_raw_path (snd p + 1) (fst p + 1)) = Inr dut_raw_fwd \<and>
          fs (dut_raw_path (fst p + 1) (snd p + 1)) = Inr dut_raw_rev
      | Assign k l \<Rightarrow> False)"

text \<open>
  A corrected 2-port that the four slice assignments accept: it has the two ports that
  are read, and one value per frequency point of the aggregate, or a single one.
\<close>

definition fits :: "network \<Rightarrow> 'c nb_state \<Rightarrow> bool" where
  "fits dut st \<longleftrightarrow>
     2 \<le> nrows (s dut) \<and> 2 \<le> ncols (s dut) \<and>
     (nfreq (s dut) = nfreq (s (splitter_cal st)) \<or> nfreq (s dut) = 1)"


section \<open>Example inputs\<close>

text \<open>
  A raw one-path measurement on the sweep \<open>fr\<close>: only \<open>S11\<close> and \<open>S21\<close> are measured,
  the other two entries are zero.
\<close>

definition example_raw :: "real list \<Rightarrow> complex \<Rightarrow> complex \<Rightarrow> network" where
  "example_raw fr s11 s21 =
     Network fr \<lparr>nfreq = length fr, nrows = 2, ncols = 2,
       item = (\<lambda>f k l. if l = 0 then (if k = 0 then s11 else s21) else 0)\<rparr>"

text \<open>
  An example of a one-path calibration. A raw reflection is modelled as
  \<open>ed + er * S11\<close> and a raw transmission as \<open>et * S21\<close>, with a directivity
  \<open>ed\<close>, a reflection tracking \<open>er\<close> and a transmission tracking \<open>et\<close> per
  frequency point. With the standards in the order short, open, match, thru, the
  terms at the frequency index \<open>f\<close> are solved from the reflections of the short, the
  open and the match and from the transmission of the thru; they do not exist when the
  ideal short and open coincide, when the ideal thru does not transmit, or when a
  tracking term comes out as zero, as for four identical measurements.
\<close>

definition example_terms ::
  "network list \<Rightarrow> network list \<Rightarrow> nat \<Rightarrow> (complex \<times> complex \<times> complex) option" where
  "example_terms ideal_standards measured f =
     (let short_i = item (s (ideal_standards ! 0)) f 0 0;
          open_i = item (s (ideal_standards ! 1)) f 0 0;
          match_i = item (s (ideal_standards ! 2)) f 0 0;
          thru_i = item (s (ideal_standards ! 3)) f 1 0;
          short_m = item (s (measured ! 0)) f 0 0;
          open_m = item (s (measured ! 1)) f 0 0;
          match_m = item (s (measured ! 2)) f 0 0;
          thru_m = item (s (measured ! 3)) f 1 0
      in if open_i = short_i \<or> thru_i = 0 then None
         else let er = (open_m - short_m) / (open_i - short_i);
                  ed = match_m - er * match_i;
                  et = thru_m / thru_i
              in if er = 0 \<or> et = 0 then None else Some (ed, er, et))"

text \<open>
  The solve raises \<^verbatim>\<open>InsufficientDataError\<close> unless it is given four ideal and four
  measured standards with one thru, \<^verbatim>\<open>FrequencyMismatchError\<close> unless all of them
  have as many frequency points, and \<^verbatim>\<open>SingularSystemError\<close> when the terms do not
  exist at some frequency point. \<open>apply_cal\<close> corrects the forward measurement into
  \<open>S11\<close> and \<open>S21\<close> and, with the same terms, the reverse measurement into \<open>S22\<close>
  and \<open>S12\<close>; it raises \<^verbatim>\<open>FrequencyMismatchError\<close> unless both measurements have
  one point per solved frequency point.
\<close>

definition example_library :: "(complex \<times> complex \<times> complex) list library" where
  "example_library =
     \<lparr>TwoPortOnePath = (\<lambda>ideal_standards measured n_thrus source_port.
          if length ideal_standards \<noteq> 4 \<or> length measured \<noteq> 4 \<or> n_thrus \<noteq> 1
            then Inl InsufficientDataError
          else if list_ex (\<lambda>N. nfreq (s N) \<noteq> nfreq (s (measured ! 0)))
                    (ideal_standards @ measured)
            then Inl FrequencyMismatchError
          else let terms = map (example_terms ideal_standards measured)
                             [0..<nfreq (s (measured ! 0))]
               in if list_ex (\<lambda>t. t = None) terms then Inl SingularSystemError
                  else Inr (map the terms)),
      apply_cal = (\<lambda>terms (fwd, rev).
          if nfreq (s fwd) \<noteq> length terms \<or> nfreq (s rev) \<noteq> length terms
            then Inl FrequencyMismatchError
          else Inr (Network (frequency fwd)
            \<lparr>nfreq = length terms, nrows = 2, ncols = 2,
             item = (\<lambda>f k l.
               case terms ! f of (ed, er, et) \<Rightarrow>
                 if k = 0 \<and> l = 0 then (item (s fwd) f 0 0 - ed) / er
                 else if k = 1 \<and> l = 0 then item (s fwd) f 1 0 / et
                 else if k = 0 \<and> l = 1 then item (s rev) f 1 0 / et
                 else (item (s rev) f 0 0 - ed) / er)\<rparr>))\<rparr>"

text \<open>
  The four raw standards are one-point measurements through a path with \<open>ed = 1 / 10\<close>,
  \<open>er = 2\<close> and \<open>et = 4\<close>. The file \<^verbatim>\<open>dut_raw_ab.s2p\<close> holds a one-point
  measurement with \<open>S11 = 0.ab\<close> and \<open>S21 = ab\<close>, so that every file is told from the
  others by its content. No other file exists.
\<close>

definition example_files :: files where
  "example_files p =
     (case map_of [(dut_raw_path a b, (a, b)). a \<leftarrow> [1..<5], b \<leftarrow> [1..<5]] p of
        Some (a, b) \<Rightarrow>
          Inr (example_raw [1000000] (of_nat (10 * a + b) / 100) (of_nat (10 * a + b)))
      | None \<Rightarrow>
          (case map_of
             [(''./data_MiniCircuits_splitter/cal_short_raw.s2p'',
                 example_raw [1000000] (- 19 / 10) 0),
              (''./data_MiniCircuits_splitter/cal_open_raw.s2p'',
                 example_raw [1000000] (21 / 10) 0),
              (''./data_MiniCircuits_splitter/cal_match_raw.s2p'',
                 example_raw [1000000] (1 / 10) 0),
              (''./data_MiniCircuits_splitter/cal_thru_raw.s2p'',
                 example_raw [1000000] (1 / 10) 4)] p of
             Some N \<Rightarrow> Inr N
           | None \<Rightarrow> Inl IOError))"

text \<open>
  The variables at the start of the assembly loop when the calibration cell has run on
  \<open>example_files\<close> with \<open>example_library\<close>.
\<close>

definition example_state :: "(complex \<times> complex \<times> complex) list nb_state" where
  "example_state =
     \<lparr>cal = [(1 / 10, 2, 4)],
      splitter_cal = new_splitter_cal (example_raw [1000000] (- 19 / 10) 0), history = []\<rparr>"


text \<open>As \<open>example_files\<close>, but the file \<^verbatim>\<open>dut_raw_31.s2p\<close> cannot be read.\<close>

definition broken_files :: files where
  "broken_files p = (if p = dut_raw_path 3 1 then Inl IOError else example_files p)"

text \<open>
  As \<open>example_files\<close>, but the file \<^verbatim>\<open>dut_raw_21.s2p\<close> was measured on another
  sweep, the single point 2 MHz instead of 1 MHz.
\<close>

definition mixed_sweep_files :: files where
  "mixed_sweep_files p =
     (if p = dut_raw_path 2 1 then Inr (example_raw [2000000] (21 / 100) 21)
      else example_files p)"


section \<open>Properties of the transmission-line formulas\<close>












lemma exp_up_ge: "e \<le> exp_up n x e"
proof (induction n arbitrary: e)
  case 0
  then show ?case by simp
next
  case (Suc n)
  from Suc[of "e + 1"] show ?case by auto
qed





















text \<open>
  C5: with the exact inputs \<open>Z\<^sub>0 = 75\<close> and \<open>Z\<^sub>L = 150\<close> the reflection coefficient is
  exactly \<open>1/3\<close> and the standing wave ratio is exactly \<open>2\<close>.
\<close>

theorem zl_2_Gamma0_swr_75_150:
  "zl_2_Gamma0 75 150 = 1 / 3 \<and> zl_2_swr 75 150 = 2"
proof -
  have g: "zl_2_Gamma0 75 150 = 1 / 3"
    by (simp add: zl_2_Gamma0_def)
  have m: "cmod (1 / 3) = 1 / 3"
    by (simp add: norm_divide)
  have "zl_2_swr 75 150 = (1 + cmod (1 / 3)) / (1 - cmod (1 / 3))"
    unfolding zl_2_swr_def g ..
  also have "\<dots> = 2"
    unfolding m by simp
  finally show ?thesis
    using g by simp
qed


section \<open>The assembly loop, step by step\<close>

lemma set_col_Inr:
  assumes "set_col A a b (map (\<lambda>f. item B f c d) [0..<nfreq B]) = Inr A'"
  shows "nfreq A' = nfreq A" "nrows A' = nrows A" "ncols A' = ncols A"
    "a < nrows A" "b < ncols A"
    "item A' f k l = (if f < nfreq A \<and> k = a \<and> l = b
        then item B (if nfreq B = 1 then 0 else f) c d else item A f k l)"
  using assms by (auto simp: set_col_def split: if_splits)

lemma assign_Raised:
  "assign i j dut a b st = Raised e st' \<Longrightarrow> st' = st"
  by (auto simp: assign_def split: sum.splits)

lemma assign_Done:
  assumes "assign i j dut a b st = Done st'"
  shows "cal st' = cal st"
    "frequency (splitter_cal st') = frequency (splitter_cal st)"
    "nfreq (s (splitter_cal st')) = nfreq (s (splitter_cal st))"
    "nrows (s (splitter_cal st')) = nrows (s (splitter_cal st))"
    "ncols (s (splitter_cal st')) = ncols (s (splitter_cal st))"
    "history st' = history st @ [Assign i j]"
    "item (s (splitter_cal st')) f k l =
       (if f < nfreq (s (splitter_cal st)) \<and> k = i \<and> l = j
        then stored dut a b f else item (s (splitter_cal st)) f k l)"
proof -
  from assms obtain A where
    A: "set_col (s (splitter_cal st)) i j (map (\<lambda>f. item (s dut) f a b) [0..<nfreq (s dut)]) = Inr A"
    and st': "st' = st\<lparr>splitter_cal := (splitter_cal st)\<lparr>s := A\<rparr>,
                        history := history st @ [Assign i j]\<rparr>"
    by (auto simp: assign_def get_col_def split: sum.splits if_splits)
  show "cal st' = cal st" "frequency (splitter_cal st') = frequency (splitter_cal st)"
    "history st' = history st @ [Assign i j]"
    by (simp_all add: st')
  show "nfreq (s (splitter_cal st')) = nfreq (s (splitter_cal st))"
    "nrows (s (splitter_cal st')) = nrows (s (splitter_cal st))"
    "ncols (s (splitter_cal st')) = ncols (s (splitter_cal st))"
    using set_col_Inr(1-3)[OF A] by (simp_all add: st')
  show "item (s (splitter_cal st')) f k l =
       (if f < nfreq (s (splitter_cal st)) \<and> k = i \<and> l = j
        then stored dut a b f else item (s (splitter_cal st)) f k l)"
    using set_col_Inr(6)[OF A, of f k l] by (simp add: st' stored_def)
qed


lemma loop_pairs_eq:
  "loop_pairs = [(0,1),(0,2),(0,3),(1,0),(1,2),(1,3),(2,0),(2,1),(2,3),(3,0),(3,1),(3,2)]"
  by (simp add: loop_pairs_def upt_rec)

lemma seq_append:
  "seq (cs @ ds) st =
     (case seq cs st of Done st' \<Rightarrow> seq ds st' | Raised e st' \<Rightarrow> Raised e st')"
  by (induction cs arbitrary: st) (auto split: outcome.splits)

lemma seq_concat:
  "seq (map (\<lambda>x. seq (cs x)) xs) = seq (concat (map cs xs))"
proof
  fix st
  show "seq (map (\<lambda>x. seq (cs x)) xs) st = seq (concat (map cs xs)) st"
    by (induction xs arbitrary: st) (auto simp: seq_append split: outcome.splits)
qed

lemma seq_skip:
  "seq (map (\<lambda>x. if P x then body x else Done) xs) = seq (map body (filter P xs))"
proof
  fix st
  show "seq (map (\<lambda>x. if P x then body x else Done) xs) st = seq (map body (filter P xs)) st"
    by (induction xs arbitrary: st) (auto split: outcome.splits)
qed

lemma assembly_loop_flat:
  "assembly_loop L fs = run_pairs L fs loop_pairs"
proof -
  have "assembly_loop L fs =
    seq (map (\<lambda>i_src. seq (map (iteration L fs i_src) (filter (\<lambda>i_recv. i_src \<noteq> i_recv) [0..<4]))) [0..<4])"
    unfolding assembly_loop_def for_in_def seq_skip ..
  also have "\<dots> = seq (concat (map (\<lambda>i_src. map (iteration L fs i_src) (filter (\<lambda>i_recv. i_src \<noteq> i_recv) [0..<4])) [0..<4]))"
    by (rule seq_concat)
  also have "\<dots> = run_pairs L fs loop_pairs"
    unfolding run_pairs_def for_in_def loop_pairs_eq by (simp add: upt_rec numeral_2_eq_2 numeral_3_eq_3)
  finally show ?thesis .
qed

lemma seq_invariant:
  assumes "P st" and "\<And>c st. c \<in> set cs \<Longrightarrow> P st \<Longrightarrow> P (state_of (c st))"
  shows "P (state_of (seq cs st))"
  using assms
proof (induction cs arbitrary: st)
  case Nil
  then show ?case by simp
next
  case (Cons c cs)
  show ?case
  proof (cases "c st")
    case (Done st1)
    have "P st1" using Cons.prems(2)[of c st] Cons.prems(1) Done by simp
    then have "P (state_of (seq cs st1))"
      by (rule Cons.IH) (simp add: Cons.prems(2))
    then show ?thesis using Done by simp
  next
    case (Raised e st1)
    have "P st1" using Cons.prems(2)[of c st] Cons.prems(1) Raised by simp
    then show ?thesis using Raised by simp
  qed
qed

lemma for_in_invariant:
  assumes "P st" and "\<And>x st. x \<in> set xs \<Longrightarrow> P st \<Longrightarrow> P (state_of (body x st))"
  shows "P (state_of (for_in xs body st))"
  unfolding for_in_def
  by (rule seq_invariant[where P = P, OF assms(1)]) (use assms(2) in auto)


lemma seq4_Done:
  "seq [c1, c2, c3, c4] st = Done st' \<longleftrightarrow>
     (\<exists>s1 s2 s3. c1 st = Done s1 \<and> c2 s1 = Done s2 \<and> c3 s2 = Done s3 \<and> c4 s3 = Done st')"
  by (auto split: outcome.splits)

lemma iteration_Done:
  assumes it: "iteration L fs a b st = Done st'" and ab: "a \<noteq> b"
  shows "\<exists>fwd rev dut.
      fs (dut_raw_path (b + 1) (a + 1)) = Inr fwd \<and>
      fs (dut_raw_path (a + 1) (b + 1)) = Inr rev \<and>
      apply_cal L (cal st) (fwd, rev) = Inr dut \<and>
      dut_cal_of L fs (cal st) a b = Inr dut \<and>
      cal st' = cal st \<and>
      frequency (splitter_cal st') = frequency (splitter_cal st) \<and>
      nfreq (s (splitter_cal st')) = nfreq (s (splitter_cal st)) \<and>
      nrows (s (splitter_cal st')) = nrows (s (splitter_cal st)) \<and>
      ncols (s (splitter_cal st')) = ncols (s (splitter_cal st)) \<and>
      history st' = history st @
        [ApplyCal (cal st) fwd rev, Assign a a, Assign b a, Assign a b, Assign b b] \<and>
      (\<forall>f k l. item (s (splitter_cal st')) f k l =
         (if f < nfreq (s (splitter_cal st)) \<and> (k = a \<or> k = b) \<and> (l = a \<or> l = b)
          then stored dut (port_of a k) (port_of a l) f
          else item (s (splitter_cal st)) f k l))"
proof -
  from it obtain fwd rev dut where
    fwd: "fs (dut_raw_path (b + 1) (a + 1)) = Inr fwd" and
    rev: "fs (dut_raw_path (a + 1) (b + 1)) = Inr rev" and
    dut: "apply_cal L (cal st) (fwd, rev) = Inr dut" and
    run: "seq [assign a a dut 0 0, assign b a dut 1 0, assign a b dut 0 1, assign b b dut 1 1]
            (st\<lparr>history := history st @ [ApplyCal (cal st) fwd rev]\<rparr>) = Done st'"
    by (auto simp: iteration_def Let_def split: sum.splits)
  define st0 where "st0 = st\<lparr>history := history st @ [ApplyCal (cal st) fwd rev]\<rparr>"
  from run obtain s1 s2 s3 where
    1: "assign a a dut 0 0 st0 = Done s1" and
    2: "assign b a dut 1 0 s1 = Done s2" and
    3: "assign a b dut 0 1 s2 = Done s3" and
    4: "assign b b dut 1 1 s3 = Done st'"
    unfolding seq4_Done st0_def by blast
  note a1 = assign_Done[OF 1] and a2 = assign_Done[OF 2]
    and a3 = assign_Done[OF 3] and a4 = assign_Done[OF 4]
  have c: "cal st' = cal st"
    by (simp add: a4(1) a3(1) a2(1) a1(1) st0_def)
  have fr: "frequency (splitter_cal st') = frequency (splitter_cal st)"
    by (simp add: a4(2) a3(2) a2(2) a1(2) st0_def)
  have n: "nfreq (s (splitter_cal st')) = nfreq (s (splitter_cal st))"
    "nrows (s (splitter_cal st')) = nrows (s (splitter_cal st))"
    "ncols (s (splitter_cal st')) = ncols (s (splitter_cal st))"
    by (simp_all add: a4(3-5) a3(3-5) a2(3-5) a1(3-5) st0_def)
  have h: "history st' = history st @
        [ApplyCal (cal st) fwd rev, Assign a a, Assign b a, Assign a b, Assign b b]"
    by (simp add: a4(6) a3(6) a2(6) a1(6) st0_def)
  have i: "item (s (splitter_cal st')) f k l =
         (if f < nfreq (s (splitter_cal st)) \<and> (k = a \<or> k = b) \<and> (l = a \<or> l = b)
          then stored dut (port_of a k) (port_of a l) f
          else item (s (splitter_cal st)) f k l)" for f k l
    using ab
    by (auto simp add: a4(7) a3(7) a3(3) a2(7) a2(3) a1(7) a1(3) st0_def port_of_def)
  have d: "dut_cal_of L fs (cal st) a b = Inr dut"
    using fwd rev dut by (simp add: dut_cal_of_def)
  from fwd rev dut d c fr n h i show ?thesis by blast
qed


lemma same_frame_refl: "same_frame st st"
  by (simp add: same_frame_def)

lemma same_frame_trans: "same_frame st st1 \<Longrightarrow> same_frame st1 st2 \<Longrightarrow> same_frame st st2"
  by (simp add: same_frame_def)

lemma assign_same_frame: "same_frame st (state_of (assign i j dut a b st))"
proof (cases "assign i j dut a b st")
  case (Done st')
  then show ?thesis using assign_Done(1-5)[OF Done] by (simp add: same_frame_def)
next
  case (Raised e st')
  then show ?thesis using assign_Raised[OF Raised] by (simp add: same_frame_def)
qed

lemma assign_other:
  assumes "k \<noteq> i \<or> l \<noteq> j"
  shows "item (s (splitter_cal (state_of (assign i j dut a b st)))) f k l =
         item (s (splitter_cal st)) f k l"
proof (cases "assign i j dut a b st")
  case (Done st')
  then show ?thesis using assign_Done(7)[OF Done, of f k l] assms by auto
next
  case (Raised e st')
  then show ?thesis using assign_Raised[OF Raised] by simp
qed

lemma iteration_cases:
  fixes st :: "'c nb_state"
  obtains
    (load_fwd) e where "fs (dut_raw_path (b + 1) (a + 1)) = Inl e"
      and "iteration L fs a b st = Raised e st"
  | (load_rev) e where "fs (dut_raw_path (a + 1) (b + 1)) = Inl e"
      and "iteration L fs a b st = Raised e st"
  | (apply_cal) fwd rev e where "fs (dut_raw_path (b + 1) (a + 1)) = Inr fwd"
      and "fs (dut_raw_path (a + 1) (b + 1)) = Inr rev"
      and "apply_cal L (cal st) (fwd, rev) = Inl e"
      and "iteration L fs a b st =
             Raised e (st\<lparr>history := history st @ [ApplyCal (cal st) fwd rev]\<rparr>)"
  | (writes) fwd rev dut where "fs (dut_raw_path (b + 1) (a + 1)) = Inr fwd"
      and "fs (dut_raw_path (a + 1) (b + 1)) = Inr rev"
      and "apply_cal L (cal st) (fwd, rev) = Inr dut"
      and "iteration L fs a b st =
             seq [assign a a dut 0 0, assign b a dut 1 0, assign a b dut 0 1, assign b b dut 1 1]
               (st\<lparr>history := history st @ [ApplyCal (cal st) fwd rev]\<rparr>)"
  unfolding iteration_def Let_def
  by (cases "fs (dut_raw_path (b + 1) (a + 1))"; cases "fs (dut_raw_path (a + 1) (b + 1))";
      cases "apply_cal L (cal st) (projr (fs (dut_raw_path (b + 1) (a + 1))),
                                    projr (fs (dut_raw_path (a + 1) (b + 1))))")
     auto

lemma writes_same_frame:
  fixes st1 :: "'c nb_state"
  assumes "same_frame st st1"
  shows "same_frame st (state_of (seq [assign a a dut 0 0, assign b a dut 1 0,
               assign a b dut 0 1, assign b b dut 1 1] st1))"
proof (rule seq_invariant[where P = "same_frame st", OF assms])
  fix c :: "'c nb_state \<Rightarrow> 'c outcome" and x :: "'c nb_state"
  assume "c \<in> set [assign a a dut 0 0, assign b a dut 1 0,
               assign a b dut 0 1, assign b b dut 1 1]" and x: "same_frame st x"
  then have "same_frame x (state_of (c x))"
    by (auto intro: assign_same_frame)
  with x show "same_frame st (state_of (c x))"
    by (rule same_frame_trans)
qed

lemma iteration_same_frame: "same_frame st (state_of (iteration L fs a b st))"
proof (cases L fs a b st rule: iteration_cases)
  case (writes fwd rev dut)
  have "same_frame st (st\<lparr>history := history st @ [ApplyCal (cal st) fwd rev]\<rparr>)"
    by (simp add: same_frame_def)
  then show ?thesis
    unfolding writes(4) by (rule writes_same_frame)
qed (simp_all add: same_frame_def)

lemma writes_other:
  fixes st1 :: "'c nb_state"
  assumes "\<not> touches (a, b) k l"
  shows "item (s (splitter_cal (state_of (seq [assign a a dut 0 0, assign b a dut 1 0,
               assign a b dut 0 1, assign b b dut 1 1] st1)))) f k l =
         item (s (splitter_cal st1)) f k l"
proof -
  let ?P = "\<lambda>x :: 'c nb_state. item (s (splitter_cal x)) f k l = item (s (splitter_cal st1)) f k l"
  show ?thesis
  proof (rule seq_invariant[where P = ?P])
    fix c :: "'c nb_state \<Rightarrow> 'c outcome" and x :: "'c nb_state"
    assume c: "c \<in> set [assign a a dut 0 0, assign b a dut 1 0,
               assign a b dut 0 1, assign b b dut 1 1]" and x: "?P x"
    from c assms have "item (s (splitter_cal (state_of (c x)))) f k l = item (s (splitter_cal x)) f k l"
      by (auto simp: touches_def intro!: assign_other)
    with x show "?P (state_of (c x))" by simp
  qed simp
qed

lemma iteration_other:
  assumes "\<not> touches (a, b) k l"
  shows "item (s (splitter_cal (state_of (iteration L fs a b st)))) f k l =
         item (s (splitter_cal st)) f k l"
proof (cases L fs a b st rule: iteration_cases)
  case (writes fwd rev dut)
  show ?thesis
    unfolding writes(4) writes_other[OF assms] by simp
qed simp_all


lemma seq_snoc_Done:
  "seq (cs @ [c]) st = Done st' \<longleftrightarrow> (\<exists>mid. seq cs st = Done mid \<and> c mid = Done st')"
  by (auto simp: seq_append split: outcome.splits)

lemma seq_Raised:
  assumes "seq cs st = Raised e st'"
  shows "\<exists>n<length cs. \<exists>mid. seq (take n cs) st = Done mid \<and> (cs ! n) mid = Raised e st'"
  using assms
proof (induction cs arbitrary: st)
  case Nil
  then show ?case by simp
next
  case (Cons c cs)
  show ?case
  proof (cases "c st")
    case (Done st1)
    with Cons.prems have "seq cs st1 = Raised e st'" by simp
    from Cons.IH[OF this] obtain n mid where
      n: "n < length cs" "seq (take n cs) st1 = Done mid" "(cs ! n) mid = Raised e st'"
      by blast
    have "Suc n < length (c # cs)" using n(1) by simp
    moreover have "seq (take (Suc n) (c # cs)) st = Done mid" using n(2) Done by simp
    moreover have "((c # cs) ! Suc n) mid = Raised e st'" using n(3) by simp
    ultimately show ?thesis by blast
  next
    case (Raised e1 st1)
    with Cons.prems have "c st = Raised e st'" by simp
    then have "0 < length (c # cs) \<and> seq (take 0 (c # cs)) st = Done st \<and>
        ((c # cs) ! 0) st = Raised e st'" by simp
    then show ?thesis by blast
  qed
qed

lemma run_pairs_Nil: "run_pairs L fs [] st = Done st"
  by (simp add: run_pairs_def for_in_def)

lemma run_pairs_snoc_Done:
  "run_pairs L fs (ps @ [p]) st = Done st' \<longleftrightarrow>
     (\<exists>mid. run_pairs L fs ps st = Done mid \<and> iteration L fs (fst p) (snd p) mid = Done st')"
  by (simp add: run_pairs_def for_in_def seq_snoc_Done case_prod_beta)

lemma run_pairs_same_frame: "same_frame st (state_of (run_pairs L fs ps st))"
  unfolding run_pairs_def
proof (rule for_in_invariant[where P = "same_frame st"])
  fix p :: "nat \<times> nat" and x :: "'a nb_state"
  assume "same_frame st x"
  moreover have "same_frame x (state_of (iteration L fs (fst p) (snd p) x))"
    by (rule iteration_same_frame)
  ultimately show "same_frame st (state_of ((case p of (i_src, i_recv) \<Rightarrow> iteration L fs i_src i_recv) x))"
    by (auto simp: case_prod_beta intro: same_frame_trans)
qed (rule same_frame_refl)

lemma run_pairs_last_write:
  assumes "run_pairs L fs ps st = Done st'"
    and "\<forall>p\<in>set ps. fst p \<noteq> snd p"
    and "filter (\<lambda>p. touches p k l) ps \<noteq> []"
    and "f < nfreq (s (splitter_cal st))"
  shows "\<exists>dut. dut_cal_of L fs (cal st)
            (fst (last (filter (\<lambda>p. touches p k l) ps)))
            (snd (last (filter (\<lambda>p. touches p k l) ps))) = Inr dut \<and>
          item (s (splitter_cal st')) f k l =
            stored dut (port_of (fst (last (filter (\<lambda>p. touches p k l) ps))) k)
                       (port_of (fst (last (filter (\<lambda>p. touches p k l) ps))) l) f"
  using assms(1-3)
proof (induction ps arbitrary: st' rule: rev_induct)
  case Nil
  then show ?case by simp
next
  case (snoc p ps)
  from snoc.prems(1) obtain mid where
    mid: "run_pairs L fs ps st = Done mid" and
    it: "iteration L fs (fst p) (snd p) mid = Done st'"
    unfolding run_pairs_snoc_Done by blast
  have "same_frame st (state_of (run_pairs L fs ps st))"
    by (rule run_pairs_same_frame)
  then have sf: "cal mid = cal st" "nfreq (s (splitter_cal mid)) = nfreq (s (splitter_cal st))"
    by (simp_all add: mid same_frame_def)
  have ne: "fst p \<noteq> snd p" using snoc.prems(2) by simp
  show ?case
  proof (cases "touches p k l")
    case True
    then have l: "last (filter (\<lambda>p. touches p k l) (ps @ [p])) = p" by simp
    from iteration_Done[OF it ne] obtain dut where
      d: "dut_cal_of L fs (cal mid) (fst p) (snd p) = Inr dut" and
      i: "\<forall>f k l. item (s (splitter_cal st')) f k l =
         (if f < nfreq (s (splitter_cal mid)) \<and> (k = fst p \<or> k = snd p) \<and> (l = fst p \<or> l = snd p)
          then stored dut (port_of (fst p) k) (port_of (fst p) l) f
          else item (s (splitter_cal mid)) f k l)"
      by blast
    from i True assms(4) have "item (s (splitter_cal st')) f k l =
        stored dut (port_of (fst p) k) (port_of (fst p) l) f"
      by (simp add: touches_def sf)
    with d show ?thesis unfolding l sf by blast
  next
    case False
    then have l: "filter (\<lambda>p. touches p k l) (ps @ [p]) = filter (\<lambda>p. touches p k l) ps" by simp
    have "item (s (splitter_cal (state_of (iteration L fs (fst p) (snd p) mid)))) f k l =
         item (s (splitter_cal mid)) f k l"
      by (rule iteration_other) (use False in simp)
    then have eq: "item (s (splitter_cal st')) f k l = item (s (splitter_cal mid)) f k l"
      by (simp add: it)
    from snoc.IH[OF mid] snoc.prems(2,3) show ?thesis
      unfolding l eq by simp
  qed
qed


lemma port_cases: "i < 4 \<Longrightarrow> i = 0 \<or> i = 1 \<or> i = 2 \<or> i = (3::nat)"
  by arith

lemma loop_pairs_distinct_ports: "\<forall>p\<in>set loop_pairs. fst p \<noteq> snd p"
  by (simp add: loop_pairs_eq)

lemma last_touching_diag:
  assumes "i < 4"
  shows "filter (\<lambda>p. touches p i i) loop_pairs \<noteq> []"
    and "last (filter (\<lambda>p. touches p i i) loop_pairs) = (3, if i = 3 then 2 else i)"
  using port_cases[OF assms] by (auto simp: loop_pairs_eq touches_def)

lemma last_pair_with_eq:
  assumes "i < 4"
  shows "last_pair_with i = (3, if i = 3 then 2 else i)"
  using port_cases[OF assms] by (auto simp: last_pair_with_def loop_pairs_eq)


lemma iteration_Done_events:
  assumes "iteration L fs a b st = Done st'" and "a \<noteq> b"
  shows "\<exists>fwd rev. new_events st st' =
     [ApplyCal (cal st) fwd rev, Assign a a, Assign b a, Assign a b, Assign b b]"
  using iteration_Done[OF assms] by (auto simp: new_events_def)

lemma diagonal_assigned_once:
  assumes "iteration L fs a b st = Done st'" and "a \<noteq> b" and "a = i \<or> b = i"
  shows "count_list (new_events st st') (Assign i i) = 1"
  using iteration_Done_events[OF assms(1,2)] assms(2,3) by auto

lemma str_digit: "n < 10 \<Longrightarrow> str n = [''0123456789'' ! n]"
  by (simp add: str.simps)

lemma str_12: "str 12 = ''12''"
  by (simp add: str.simps)

lemma dut_raw_path_21: "dut_raw_path 2 1 = ''./data_MiniCircuits_splitter/dut_raw_21.s2p''"
  by (simp add: dut_raw_path_def str_digit)

lemma example_files_dut:
  assumes "a \<in> {1, 2, 3, 4}" "b \<in> {1, 2, 3, 4}"
  shows "example_files (dut_raw_path a b) =
     Inr (example_raw [1000000] (of_nat (10 * a + b) / 100) (of_nat (10 * a + b)))"
  using assms
  by (auto simp: example_files_def dut_raw_path_def str_digit upt_rec)


lemma run_pairs_Done_events:
  assumes "run_pairs L fs ps st = Done st'" and "\<forall>p\<in>set ps. fst p \<noteq> snd p"
  shows "\<exists>evs. history st' = history st @ evs \<and>
           list_all2 (called_for fs (cal st)) (filter is_ApplyCal evs) ps \<and>
           (\<forall>p\<in>set ps. \<forall>k l. touches p k l \<longrightarrow> Assign k l \<in> set evs)"
  using assms
proof (induction ps arbitrary: st' rule: rev_induct)
  case Nil
  then show ?case by (simp add: run_pairs_Nil)
next
  case (snoc p ps)
  from snoc.prems(1) obtain mid where
    mid: "run_pairs L fs ps st = Done mid" and
    it: "iteration L fs (fst p) (snd p) mid = Done st'"
    unfolding run_pairs_snoc_Done by blast
  have "same_frame st (state_of (run_pairs L fs ps st))"
    by (rule run_pairs_same_frame)
  then have c: "cal mid = cal st"
    by (simp add: mid same_frame_def)
  have ne: "fst p \<noteq> snd p" using snoc.prems(2) by simp
  from snoc.IH[OF mid] snoc.prems(2) obtain evs where
    evs: "history mid = history st @ evs"
      "list_all2 (called_for fs (cal st)) (filter is_ApplyCal evs) ps"
      "\<forall>p\<in>set ps. \<forall>k l. touches p k l \<longrightarrow> Assign k l \<in> set evs"
    by auto
  from iteration_Done[OF it ne] obtain fwd rev where
    fwd: "fs (dut_raw_path (snd p + 1) (fst p + 1)) = Inr fwd" and
    rev: "fs (dut_raw_path (fst p + 1) (snd p + 1)) = Inr rev" and
    h: "history st' = history mid @ [ApplyCal (cal mid) fwd rev, Assign (fst p) (fst p),
          Assign (snd p) (fst p), Assign (fst p) (snd p), Assign (snd p) (snd p)]"
    by blast
  let ?new = "[ApplyCal (cal st) fwd rev, Assign (fst p) (fst p),
          Assign (snd p) (fst p), Assign (fst p) (snd p), Assign (snd p) (snd p)]"
  have 1: "history st' = history st @ (evs @ ?new)"
    by (simp add: h evs(1) c)
  have "called_for fs (cal st) (ApplyCal (cal st) fwd rev) p"
    using fwd rev by (simp add: called_for_def)
  then have 2: "list_all2 (called_for fs (cal st)) (filter is_ApplyCal (evs @ ?new)) (ps @ [p])"
    using evs(2) by (simp add: list_all2_appendI)
  have 3: "\<forall>q\<in>set (ps @ [p]). \<forall>k l. touches q k l \<longrightarrow> Assign k l \<in> set (evs @ ?new)"
    using evs(3) by (auto simp: touches_def)
  from 1 2 3 show ?case by blast
qed

lemma loop_pairs_set: "set loop_pairs = {(i, j). i < 4 \<and> j < 4 \<and> i \<noteq> j}"
  by (auto simp: loop_pairs_def)

lemma loop_pairs_distinct: "distinct loop_pairs"
  by (simp add: loop_pairs_eq)

lemma loop_pairs_length: "length loop_pairs = 12"
  by (simp add: loop_pairs_eq)

lemma some_pair_touches:
  assumes "k < 4" "l < 4"
  shows "filter (\<lambda>p. touches p k l) loop_pairs \<noteq> []"
proof -
  have "\<exists>p\<in>set loop_pairs. touches p k l"
  proof (cases "k = l")
    case True
    with assms have "(k, if k = 0 then 1 else 0) \<in> set loop_pairs"
      by (auto simp: loop_pairs_set)
    moreover have "touches (k, if k = 0 then 1 else 0) k l"
      using True by (simp add: touches_def)
    ultimately show ?thesis by blast
  next
    case False
    with assms have "(k, l) \<in> set loop_pairs"
      by (auto simp: loop_pairs_set)
    moreover have "touches (k, l) k l"
      by (simp add: touches_def)
    ultimately show ?thesis by blast
  qed
  then show ?thesis
    by (simp add: filter_empty_conv)
qed

lemma new_events_append: "history st' = history st @ evs \<Longrightarrow> new_events st st' = evs"
  by (simp add: new_events_def)

lemma run_pairs_Raised:
  assumes "run_pairs L fs ps st = Raised e st'"
  shows "\<exists>n<length ps. \<exists>mid. run_pairs L fs (take n ps) st = Done mid \<and>
           iteration L fs (fst (ps ! n)) (snd (ps ! n)) mid = Raised e st'"
proof -
  from assms have "seq (map (\<lambda>(i_src, i_recv). iteration L fs i_src i_recv) ps) st = Raised e st'"
    by (simp add: run_pairs_def for_in_def)
  from seq_Raised[OF this] obtain n mid where
    n: "n < length ps" and
    d: "seq (take n (map (\<lambda>(i_src, i_recv). iteration L fs i_src i_recv) ps)) st = Done mid" and
    r: "(map (\<lambda>(i_src, i_recv). iteration L fs i_src i_recv) ps ! n) mid = Raised e st'"
    by auto
  from d have "run_pairs L fs (take n ps) st = Done mid"
    by (simp add: run_pairs_def for_in_def take_map)
  moreover from r n have "iteration L fs (fst (ps ! n)) (snd (ps ! n)) mid = Raised e st'"
    by (simp add: case_prod_beta)
  ultimately show ?thesis using n by blast
qed


section \<open>When the loop runs to its end\<close>

text \<open>
  The loop raises nothing when the aggregate has at least four ports and every pair
  yields a corrected 2-port that the slice assignments accept.
\<close>

lemma assign_succeeds:
  assumes "a < nrows (s dut)" "b < ncols (s dut)"
    and "i < nrows (s (splitter_cal st))" "j < ncols (s (splitter_cal st))"
    and "nfreq (s dut) = nfreq (s (splitter_cal st)) \<or> nfreq (s dut) = 1"
  shows "\<exists>st'. assign i j dut a b st = Done st'"
  using assms by (auto simp: assign_def get_col_def set_col_def)

lemma iteration_succeeds:
  assumes d: "dut_cal_of L fs (cal st) a b = Inr dut" and fit: "fits dut st"
    and a: "a < 4" and b: "b < 4"
    and r: "4 \<le> nrows (s (splitter_cal st))" and c: "4 \<le> ncols (s (splitter_cal st))"
  shows "\<exists>st'. iteration L fs a b st = Done st'"
proof (cases L fs a b st rule: iteration_cases)
  case (load_fwd e)
  with d show ?thesis by (simp add: dut_cal_of_def)
next
  case (load_rev e)
  with d show ?thesis by (simp add: dut_cal_of_def split: sum.splits)
next
  case (apply_cal fwd rev e)
  with d show ?thesis by (simp add: dut_cal_of_def)
next
  case (writes fwd rev dut')
  with d have dut': "dut' = dut" by (simp add: dut_cal_of_def)
  let ?st0 = "st\<lparr>history := history st @ [ApplyCal (cal st) fwd rev]\<rparr>"
  have shape: "nrows (s (splitter_cal st0)) = nrows (s (splitter_cal st)) \<Longrightarrow>
      ncols (s (splitter_cal st0)) = ncols (s (splitter_cal st)) \<Longrightarrow>
      nfreq (s (splitter_cal st0)) = nfreq (s (splitter_cal st)) \<Longrightarrow>
      i \<in> {a, b} \<Longrightarrow> j \<in> {a, b} \<Longrightarrow> k < 2 \<Longrightarrow> l < 2 \<Longrightarrow>
      \<exists>st'. assign i j dut k l st0 = Done st'" for st0 :: "'a nb_state" and i j k l
    using fit a b r c by (intro assign_succeeds) (auto simp: fits_def)
  from shape[of ?st0 a a 0 0] obtain s1 where 1: "assign a a dut 0 0 ?st0 = Done s1"
    by auto
  note a1 = assign_Done(3-5)[OF 1]
  from shape[of s1 b a 1 0] a1 obtain s2 where 2: "assign b a dut 1 0 s1 = Done s2"
    by auto
  note a2 = assign_Done(3-5)[OF 2]
  from shape[of s2 a b 0 1] a1 a2 obtain s3 where 3: "assign a b dut 0 1 s2 = Done s3"
    by auto
  note a3 = assign_Done(3-5)[OF 3]
  from shape[of s3 b b 1 1] a1 a2 a3 obtain s4 where 4: "assign b b dut 1 1 s3 = Done s4"
    by auto
  from 1 2 3 4 show ?thesis
    unfolding writes(4) dut' by simp
qed

lemma run_pairs_succeeds:
  assumes "\<forall>p\<in>set ps. fst p < 4 \<and> snd p < 4 \<and>
      (\<exists>dut. dut_cal_of L fs (cal st) (fst p) (snd p) = Inr dut \<and> fits dut st)"
    and "4 \<le> nrows (s (splitter_cal st))" and "4 \<le> ncols (s (splitter_cal st))"
  shows "\<exists>st'. run_pairs L fs ps st = Done st'"
  using assms
proof (induction ps rule: rev_induct)
  case Nil
  then show ?case by (simp add: run_pairs_Nil)
next
  case (snoc p ps)
  from snoc obtain mid where mid: "run_pairs L fs ps st = Done mid"
    by auto
  have "same_frame st (state_of (run_pairs L fs ps st))"
    by (rule run_pairs_same_frame)
  then have sf: "cal mid = cal st" "nfreq (s (splitter_cal mid)) = nfreq (s (splitter_cal st))"
    "nrows (s (splitter_cal mid)) = nrows (s (splitter_cal st))"
    "ncols (s (splitter_cal mid)) = ncols (s (splitter_cal st))"
    by (simp_all add: mid same_frame_def)
  from snoc.prems(1) obtain dut where
    p: "fst p < 4" "snd p < 4" and
    d: "dut_cal_of L fs (cal st) (fst p) (snd p) = Inr dut" and f: "fits dut st"
    by auto
  have "\<exists>st'. iteration L fs (fst p) (snd p) mid = Done st'"
    using d f p snoc.prems(2,3)
    by (intro iteration_succeeds[where dut = dut]) (simp_all add: sf fits_def)
  with mid show ?case
    unfolding run_pairs_snoc_Done by blast
qed

lemma assembly_loop_completes:
  assumes "\<forall>p\<in>set loop_pairs.
      \<exists>dut. dut_cal_of L fs (cal st) (fst p) (snd p) = Inr dut \<and> fits dut st"
    and "4 \<le> nrows (s (splitter_cal st))" and "4 \<le> ncols (s (splitter_cal st))"
  shows "is_Done (assembly_loop L fs st)"
proof -
  have "\<forall>p\<in>set loop_pairs. fst p < 4 \<and> snd p < 4 \<and>
      (\<exists>dut. dut_cal_of L fs (cal st) (fst p) (snd p) = Inr dut \<and> fits dut st)"
    using assms(1) by (auto simp: loop_pairs_set)
  from run_pairs_succeeds[OF this assms(2,3)] show ?thesis
    by (auto simp: assembly_loop_flat)
qed









section \<open>Properties of the assembly loop\<close>

text \<open>
  C3: an iteration for the pair \<open>(i, j)\<close> modifies only the entries \<open>(i,i)\<close>, \<open>(j,i)\<close>,
  \<open>(i,j)\<close>, \<open>(j,j)\<close> of the aggregate: every entry \<open>(k, l)\<close> with \<open>k\<close> or \<open>l\<close> outside
  \<open>{i, j}\<close> is unchanged at every frequency index \<open>f\<close>, whether the iteration runs to
  its end or raises; the sweep and the shape of the aggregate are unchanged too.
\<close>

theorem iteration_frame:
  assumes "\<not> (k \<in> {i, j} \<and> l \<in> {i, j})"
  shows "item (s (splitter_cal (state_of (iteration L fs i j st)))) f k l =
           item (s (splitter_cal st)) f k l \<and>
         frequency (splitter_cal (state_of (iteration L fs i j st))) =
           frequency (splitter_cal st) \<and>
         nfreq (s (splitter_cal (state_of (iteration L fs i j st)))) =
           nfreq (s (splitter_cal st)) \<and>
         nrows (s (splitter_cal (state_of (iteration L fs i j st)))) =
           nrows (s (splitter_cal st)) \<and>
         ncols (s (splitter_cal (state_of (iteration L fs i j st)))) =
           ncols (s (splitter_cal st))"
proof -
  from assms have "\<not> touches (i, j) k l"
    by (auto simp: touches_def)
  then have "item (s (splitter_cal (state_of (iteration L fs i j st)))) f k l =
           item (s (splitter_cal st)) f k l"
    by (rule iteration_other)
  moreover have "same_frame st (state_of (iteration L fs i j st))"
    by (rule iteration_same_frame)
  ultimately show ?thesis
    by (simp add: same_frame_def)
qed

lemmas example_defs =
  iteration_def example_library_def example_files_dut example_state_def
  assign_def get_col_def set_col_def new_splitter_cal_def Network_def zeros_def
  example_raw_def

lemma example_loop_Done:
  "assembly_loop example_library example_files example_state =
     Done (state_of (assembly_loop example_library example_files example_state))"
proof -
  have "is_Done (assembly_loop example_library example_files example_state)"
    unfolding assembly_loop_flat loop_pairs_eq run_pairs_def for_in_def
    by (simp add: example_defs)
  then show ?thesis by simp
qed

lemma example_loop_nfreq:
  "nfreq (s (splitter_cal (state_of (assembly_loop example_library example_files example_state)))) = 1"
proof -
  have "same_frame example_state (state_of (run_pairs example_library example_files loop_pairs example_state))"
    by (rule run_pairs_same_frame)
  then show ?thesis
    by (simp add: assembly_loop_flat same_frame_def example_state_def new_splitter_cal_def
        Network_def zeros_def example_raw_def)
qed

lemma example_dut_cal_of:
  assumes "a \<in> {0, 1, 2, 3}" "b \<in> {0, 1, 2, 3}"
  shows "\<exists>dut. dut_cal_of example_library example_files [(1 / 10, 2, 4)] a b = Inr dut \<and>
    nfreq (s dut) = 1 \<and>
    item (s dut) 0 0 0 = (of_nat (10 * (b + 1) + (a + 1)) / 100 - 1 / 10) / 2 \<and>
    item (s dut) 0 1 0 = of_nat (10 * (b + 1) + (a + 1)) / 4 \<and>
    item (s dut) 0 0 1 = of_nat (10 * (a + 1) + (b + 1)) / 4 \<and>
    item (s dut) 0 1 1 = (of_nat (10 * (a + 1) + (b + 1)) / 100 - 1 / 10) / 2"
  using assms
  by (auto simp: dut_cal_of_def example_library_def example_files_dut Network_def example_raw_def)

theorem iteration_frame_witness:
  "\<not> ((2::nat) \<in> {0, 1} \<and> (3::nat) \<in> {0, 1}) \<and>
   is_Done (iteration example_library example_files 0 1 example_state) \<and>
   item (s (splitter_cal (state_of (iteration example_library example_files 0 1 example_state))))
     0 1 0 = 21 / 4 \<and>
   item (s (splitter_cal (state_of (iteration example_library example_files 0 1 example_state))))
     0 2 3 = item (s (splitter_cal example_state)) 0 2 3"
proof -
  have h: "\<not> ((2::nat) \<in> {0, 1} \<and> (3::nat) \<in> {0, 1})"
    by simp
  have d: "is_Done (iteration example_library example_files 0 1 example_state)"
    by (simp add: example_defs)
  have v: "item (s (splitter_cal (state_of (iteration example_library example_files 0 1
      example_state)))) 0 1 0 = 21 / 4"
    by (simp add: example_defs)
  from iteration_frame [OF h, of example_library example_files example_state 0] h d v
  show ?thesis by blast
qed

text \<open>
  C1: in an iteration whose pair contains the port \<open>i\<close>, the diagonal entry \<open>(i, i)\<close>
  is assigned exactly once; after the whole loop it holds, at every frequency index,
  the value stored by the last iteration in loop order whose pair contains \<open>i\<close>, which
  is the pair \<open>(3, i)\<close> for \<open>i < 3\<close> and \<open>(3, 2)\<close> for \<open>i = 3\<close>.
\<close>

theorem diagonal_last_write_wins:
  assumes loop: "assembly_loop L fs st = Done st'" and i: "i < 4"
    and f: "f < nfreq (s (splitter_cal st'))"
  shows "(\<forall>a b st0 st1. a \<noteq> b \<and> (a = i \<or> b = i) \<and> iteration L fs a b st0 = Done st1 \<longrightarrow>
            count_list (new_events st0 st1) (Assign i i) = 1) \<and>
         last_pair_with i = (3, if i = 3 then 2 else i) \<and>
         (\<exists>dut. dut_cal_of L fs (cal st) (fst (last_pair_with i)) (snd (last_pair_with i)) = Inr dut \<and>
            item (s (splitter_cal st')) f i i =
              stored dut (port_of (fst (last_pair_with i)) i) (port_of (fst (last_pair_with i)) i) f)"
proof -
  have run: "run_pairs L fs loop_pairs st = Done st'"
    using loop by (simp add: assembly_loop_flat)
  have "same_frame st (state_of (run_pairs L fs loop_pairs st))"
    by (rule run_pairs_same_frame)
  then have f0: "f < nfreq (s (splitter_cal st))"
    using f by (simp add: run same_frame_def)
  have q: "last (filter (\<lambda>p. touches p i i) loop_pairs) = last_pair_with i"
    by (simp add: last_touching_diag(2)[OF i] last_pair_with_eq[OF i])
  from run_pairs_last_write[OF run loop_pairs_distinct_ports last_touching_diag(1)[OF i] f0]
  have "\<exists>dut. dut_cal_of L fs (cal st) (fst (last_pair_with i)) (snd (last_pair_with i)) = Inr dut \<and>
            item (s (splitter_cal st')) f i i =
              stored dut (port_of (fst (last_pair_with i)) i) (port_of (fst (last_pair_with i)) i) f"
    unfolding q .
  moreover have "\<forall>a b st0 st1. a \<noteq> b \<and> (a = i \<or> b = i) \<and> iteration L fs a b st0 = Done st1 \<longrightarrow>
            count_list (new_events st0 st1) (Assign i i) = 1"
    by (blast intro: diagonal_assigned_once)
  ultimately show ?thesis
    using last_pair_with_eq[OF i] by blast
qed

theorem diagonal_last_write_wins_witness:
  "assembly_loop example_library example_files example_state =
     Done (state_of (assembly_loop example_library example_files example_state)) \<and>
   (2::nat) < 4 \<and>
   0 < nfreq (s (splitter_cal (state_of (assembly_loop example_library example_files example_state)))) \<and>
   last_pair_with 2 = (3, 2) \<and>
   item (s (splitter_cal (state_of (assembly_loop example_library example_files example_state))))
     0 2 2 = 33 / 200"
proof -
  have i: "(2::nat) < 4" by simp
  have f: "0 < nfreq (s (splitter_cal (state_of
      (assembly_loop example_library example_files example_state))))"
    by (simp add: example_loop_nfreq)
  note th = diagonal_last_write_wins [OF example_loop_Done i f]
  from th have q: "last_pair_with 2 = (3, 2)"
    by simp
  from th have "\<exists>dut. dut_cal_of example_library example_files (cal example_state)
             (fst (last_pair_with 2)) (snd (last_pair_with 2)) = Inr dut \<and>
           item (s (splitter_cal (state_of
             (assembly_loop example_library example_files example_state)))) 0 2 2 =
           stored dut (port_of (fst (last_pair_with 2)) 2) (port_of (fst (last_pair_with 2)) 2) 0"
    by blast
  then have "item (s (splitter_cal (state_of
      (assembly_loop example_library example_files example_state)))) 0 2 2 = 33 / 200"
    unfolding q using example_dut_cal_of [of 3 2]
    by (auto simp: example_state_def stored_def port_of_def)
  with example_loop_Done i f q show ?thesis by blast
qed




text \<open>
  C9: a loop that runs to its end has invoked \<open>apply_cal\<close> exactly 12 times, once for
  each ordered pair of distinct ports in loop order, each time on the two files of that
  pair; every one of the 16 entries of the aggregate has been assigned at least once,
  and at every frequency index every entry holds a value stored from the corrected
  2-port of one of the pairs, so none is left at its initial value by default.
\<close>

theorem assembly_loop_calls_and_fills:
  assumes loop: "assembly_loop L fs st = Done st'"
  shows "length (filter is_ApplyCal (new_events st st')) = 12 \<and>
         list_all2 (called_for fs (cal st)) (filter is_ApplyCal (new_events st st')) loop_pairs \<and>
         distinct loop_pairs \<and>
         set loop_pairs = {(i, j). i < 4 \<and> j < 4 \<and> i \<noteq> j} \<and>
         (\<forall>k<4. \<forall>l<4. Assign k l \<in> set (new_events st st')) \<and>
         (\<forall>k<4. \<forall>l<4. \<forall>f<nfreq (s (splitter_cal st')).
            \<exists>p\<in>set loop_pairs. \<exists>dut.
              dut_cal_of L fs (cal st) (fst p) (snd p) = Inr dut \<and>
              item (s (splitter_cal st')) f k l =
                stored dut (port_of (fst p) k) (port_of (fst p) l) f)"
proof -
  have run: "run_pairs L fs loop_pairs st = Done st'"
    using loop by (simp add: assembly_loop_flat)
  have "same_frame st (state_of (run_pairs L fs loop_pairs st))"
    by (rule run_pairs_same_frame)
  then have nf: "nfreq (s (splitter_cal st')) = nfreq (s (splitter_cal st))"
    by (simp add: run same_frame_def)
  from run_pairs_Done_events[OF run loop_pairs_distinct_ports] obtain evs where
    h: "history st' = history st @ evs" and
    calls: "list_all2 (called_for fs (cal st)) (filter is_ApplyCal evs) loop_pairs" and
    assigns: "\<forall>p\<in>set loop_pairs. \<forall>k l. touches p k l \<longrightarrow> Assign k l \<in> set evs"
    by blast
  have ne: "new_events st st' = evs"
    using h by (rule new_events_append)
  have 1: "length (filter is_ApplyCal (new_events st st')) = 12"
    using list_all2_lengthD[OF calls] by (simp add: ne loop_pairs_length)
  have 2: "list_all2 (called_for fs (cal st)) (filter is_ApplyCal (new_events st st')) loop_pairs"
    using calls by (simp add: ne)
  have 3: "\<forall>k<4. \<forall>l<4. Assign k l \<in> set (new_events st st')"
  proof (intro allI impI)
    fix k l :: nat
    assume "k < 4" "l < 4"
    from some_pair_touches[OF this] obtain p where "p \<in> set loop_pairs" "touches p k l"
      by (auto simp: filter_empty_conv)
    with assigns show "Assign k l \<in> set (new_events st st')"
      unfolding ne by blast
  qed
  have 4: "\<forall>k<4. \<forall>l<4. \<forall>f<nfreq (s (splitter_cal st')).
            \<exists>p\<in>set loop_pairs. \<exists>dut.
              dut_cal_of L fs (cal st) (fst p) (snd p) = Inr dut \<and>
              item (s (splitter_cal st')) f k l =
                stored dut (port_of (fst p) k) (port_of (fst p) l) f"
  proof (intro allI impI)
    fix k l f :: nat
    assume kl: "k < 4" "l < 4" and f: "f < nfreq (s (splitter_cal st'))"
    let ?q = "last (filter (\<lambda>p. touches p k l) loop_pairs)"
    have t: "filter (\<lambda>p. touches p k l) loop_pairs \<noteq> []"
      using kl by (rule some_pair_touches)
    then have "?q \<in> set (filter (\<lambda>p. touches p k l) loop_pairs)"
      by (rule last_in_set)
    then have q: "?q \<in> set loop_pairs"
      by simp
    from f have f0: "f < nfreq (s (splitter_cal st))"
      by (simp add: nf)
    from run_pairs_last_write[OF run loop_pairs_distinct_ports t f0] q
    show "\<exists>p\<in>set loop_pairs. \<exists>dut.
              dut_cal_of L fs (cal st) (fst p) (snd p) = Inr dut \<and>
              item (s (splitter_cal st')) f k l =
                stored dut (port_of (fst p) k) (port_of (fst p) l) f"
      by blast
  qed
  from 1 2 3 4 loop_pairs_distinct loop_pairs_set show ?thesis
    by blast
qed

theorem assembly_loop_calls_and_fills_witness:
  "assembly_loop example_library example_files example_state =
     Done (state_of (assembly_loop example_library example_files example_state)) \<and>
   length (filter is_ApplyCal (new_events example_state
     (state_of (assembly_loop example_library example_files example_state)))) = 12 \<and>
   Assign 2 3 \<in> set (new_events example_state
     (state_of (assembly_loop example_library example_files example_state)))"
proof -
  note th = assembly_loop_calls_and_fills [OF example_loop_Done]
  from th have "length (filter is_ApplyCal (new_events example_state
     (state_of (assembly_loop example_library example_files example_state)))) = 12"
    by blast
  moreover from th have "\<forall>k<4. \<forall>l<4. Assign k l \<in> set (new_events example_state
     (state_of (assembly_loop example_library example_files example_state)))"
    by blast
  then have "Assign 2 3 \<in> set (new_events example_state
     (state_of (assembly_loop example_library example_files example_state)))"
    by simp
  ultimately show ?thesis
    using example_loop_Done by blast
qed



section \<open>Errors\<close>

text \<open>
  C4, as amended: an error of the calibration cell is the notebook's result, and no
  aggregate exists then. An error in the assembly loop is the notebook's result
  together with the variables as they are at that moment: some number \<open>n\<close> of
  iterations ran to their end, the next one raised, no later one ran, and outside
  the four entries of the failing pair the aggregate holds what the \<open>n\<close> iterations
  before left in it.
\<close>

theorem error_aborts_keeping_earlier_entries:
  "(calibration_cell L fs = Inl e \<longrightarrow> notebook L fs = Inl e) \<and>
   (calibration_cell L fs = Inr (short_raw, c) \<and>
    assembly_cell L fs short_raw c = Raised e st' \<longrightarrow>
      notebook L fs = Inr (Raised e st') \<and>
      (\<exists>n<length loop_pairs. \<exists>mid.
         run_pairs L fs (take n loop_pairs)
           \<lparr>cal = c, splitter_cal = new_splitter_cal short_raw, history = []\<rparr> = Done mid \<and>
         iteration L fs (fst (loop_pairs ! n)) (snd (loop_pairs ! n)) mid = Raised e st' \<and>
         (\<forall>f k l. \<not> touches (loop_pairs ! n) k l \<longrightarrow>
            item (s (splitter_cal st')) f k l = item (s (splitter_cal mid)) f k l)))"
proof (intro conjI impI)
  assume "calibration_cell L fs = Inl e"
  then show "notebook L fs = Inl e"
    by (simp add: notebook_def)
next
  assume a: "calibration_cell L fs = Inr (short_raw, c) \<and>
    assembly_cell L fs short_raw c = Raised e st'"
  then show "notebook L fs = Inr (Raised e st')"
    by (simp add: notebook_def)
  let ?st = "\<lparr>cal = c, splitter_cal = new_splitter_cal short_raw, history = []\<rparr>"
  from a have "run_pairs L fs loop_pairs ?st = Raised e st'"
    by (simp add: assembly_cell_def assembly_loop_flat)
  from run_pairs_Raised[OF this] obtain n mid where
    n: "n < length loop_pairs" and
    d: "run_pairs L fs (take n loop_pairs) ?st = Done mid" and
    r: "iteration L fs (fst (loop_pairs ! n)) (snd (loop_pairs ! n)) mid = Raised e st'"
    by blast
  have "\<forall>f k l. \<not> touches (loop_pairs ! n) k l \<longrightarrow>
            item (s (splitter_cal st')) f k l = item (s (splitter_cal mid)) f k l"
  proof (intro allI impI)
    fix f k l
    assume "\<not> touches (loop_pairs ! n) k l"
    then have "\<not> touches (fst (loop_pairs ! n), snd (loop_pairs ! n)) k l"
      by simp
    from iteration_other[OF this, of L fs mid f]
    show "item (s (splitter_cal st')) f k l = item (s (splitter_cal mid)) f k l"
      by (simp add: r)
  qed
  with n d r show "\<exists>n<length loop_pairs. \<exists>mid.
         run_pairs L fs (take n loop_pairs) ?st = Done mid \<and>
         iteration L fs (fst (loop_pairs ! n)) (snd (loop_pairs ! n)) mid = Raised e st' \<and>
         (\<forall>f k l. \<not> touches (loop_pairs ! n) k l \<longrightarrow>
            item (s (splitter_cal st')) f k l = item (s (splitter_cal mid)) f k l)"
    by blast
qed

lemma example_files_cal:
  "example_files ''./data_MiniCircuits_splitter/cal_short_raw.s2p'' =
     Inr (example_raw [1000000] (- 19 / 10) 0)"
  "example_files ''./data_MiniCircuits_splitter/cal_open_raw.s2p'' =
     Inr (example_raw [1000000] (21 / 10) 0)"
  "example_files ''./data_MiniCircuits_splitter/cal_match_raw.s2p'' =
     Inr (example_raw [1000000] (1 / 10) 0)"
  "example_files ''./data_MiniCircuits_splitter/cal_thru_raw.s2p'' =
     Inr (example_raw [1000000] (1 / 10) 4)"
  by (simp_all add: example_files_def dut_raw_path_def str_digit upt_rec)

lemma broken_files_cal:
  "broken_files ''./data_MiniCircuits_splitter/cal_short_raw.s2p'' =
     Inr (example_raw [1000000] (- 19 / 10) 0)"
  "broken_files ''./data_MiniCircuits_splitter/cal_open_raw.s2p'' =
     Inr (example_raw [1000000] (21 / 10) 0)"
  "broken_files ''./data_MiniCircuits_splitter/cal_match_raw.s2p'' =
     Inr (example_raw [1000000] (1 / 10) 0)"
  "broken_files ''./data_MiniCircuits_splitter/cal_thru_raw.s2p'' =
     Inr (example_raw [1000000] (1 / 10) 4)"
  by (simp_all add: broken_files_def example_files_cal) (simp_all add: dut_raw_path_def str_digit)

lemma broken_files_dut:
  assumes "a \<in> {1, 2, 3, 4}" "b \<in> {1, 2, 3, 4}"
  shows "broken_files (dut_raw_path a b) =
     (if a = 3 \<and> b = 1 then Inl IOError
      else Inr (example_raw [1000000] (of_nat (10 * a + b) / 100) (of_nat (10 * a + b))))"
proof -
  have "dut_raw_path a b = dut_raw_path 3 1 \<longleftrightarrow> a = 3 \<and> b = 1"
    using assms by (elim insertE emptyE; simp add: dut_raw_path_def str_digit)
  then show ?thesis
    using assms by (simp add: broken_files_def example_files_dut)
qed

lemma example_solve:
  "TwoPortOnePath example_library (ideals (example_raw [1000000] (- 19 / 10) 0))
     [example_raw [1000000] (- 19 / 10) 0, example_raw [1000000] (21 / 10) 0,
      example_raw [1000000] (1 / 10) 0, example_raw [1000000] (1 / 10) 4] 1 1 =
   Inr [(1 / 10, 2, 4)]"
  by (simp add: example_library_def example_terms_def ideals_def Let_def DefinedGammaZ0_def
      media_short_def media_open_def media_match_def media_thru_def ideal_def Network_def
      example_raw_def)

lemma example_solve_singular:
  "TwoPortOnePath example_library (ideals (example_raw [1000000] 0 1))
     [example_raw [1000000] 0 1, example_raw [1000000] 0 1,
      example_raw [1000000] 0 1, example_raw [1000000] 0 1] 1 1 =
   Inl SingularSystemError"
  by (simp add: example_library_def example_terms_def ideals_def Let_def DefinedGammaZ0_def
      media_short_def media_open_def media_match_def media_thru_def ideal_def Network_def
      example_raw_def)

lemma example_calibration:
  "calibration_cell example_library example_files =
     Inr (example_raw [1000000] (- 19 / 10) 0, [(1 / 10, 2, 4)])"
  using example_solve by (simp add: calibration_cell_def example_files_cal)

lemma broken_calibration:
  "calibration_cell example_library broken_files =
     Inr (example_raw [1000000] (- 19 / 10) 0, [(1 / 10, 2, 4)])"
  using example_solve by (simp add: calibration_cell_def broken_files_cal)

lemmas broken_defs =
  iteration_def example_library_def broken_files_dut
  assign_def get_col_def set_col_def new_splitter_cal_def Network_def zeros_def
  example_raw_def

lemma broken_assembly:
  "assembly_cell example_library broken_files (example_raw [1000000] (- 19 / 10) 0) [(1 / 10, 2, 4)] =
     Raised IOError (state_of (assembly_cell example_library broken_files
       (example_raw [1000000] (- 19 / 10) 0) [(1 / 10, 2, 4)]))"
proof -
  have "\<not> is_Done (assembly_cell example_library broken_files (example_raw [1000000] (- 19 / 10) 0) [(1 / 10, 2, 4)]) \<and>
     error_of (assembly_cell example_library broken_files (example_raw [1000000] (- 19 / 10) 0) [(1 / 10, 2, 4)]) = IOError"
    unfolding assembly_cell_def assembly_loop_flat loop_pairs_eq run_pairs_def for_in_def
    by (simp add: broken_defs)
  then show ?thesis
    by (metis outcome.collapse(2))
qed

text \<open>
  C4 as stated fails: when \<^verbatim>\<open>dut_raw_31.s2p\<close> cannot be read, the second iteration
  raises, and the aggregate, created with zeros, is left holding the entry \<open>(1, 0)\<close>
  that the first iteration stored.
\<close>

theorem partial_results_counterexample:
  "notebook example_library broken_files =
     Inr (Raised IOError (state_of (assembly_cell example_library broken_files
       (example_raw [1000000] (- 19 / 10) 0) [(1 / 10, 2, 4)]))) \<and>
   is_Done (iteration example_library broken_files 0 1
     \<lparr>cal = [(1 / 10, 2, 4)], splitter_cal = new_splitter_cal (example_raw [1000000] (- 19 / 10) 0), history = []\<rparr>) \<and>
   item (s (new_splitter_cal (example_raw [1000000] (- 19 / 10) 0))) 0 1 0 = 0 \<and>
   item (s (splitter_cal (state_of (assembly_cell example_library broken_files
       (example_raw [1000000] (- 19 / 10) 0) [(1 / 10, 2, 4)])))) 0 1 0 = 21 / 4"
proof -
  have "notebook example_library broken_files =
     Inr (Raised IOError (state_of (assembly_cell example_library broken_files
       (example_raw [1000000] (- 19 / 10) 0) [(1 / 10, 2, 4)])))"
    using broken_assembly by (simp add: notebook_def broken_calibration)
  moreover have "is_Done (iteration example_library broken_files 0 1
     \<lparr>cal = [(1 / 10, 2, 4)], splitter_cal = new_splitter_cal (example_raw [1000000] (- 19 / 10) 0), history = []\<rparr>)"
    by (simp add: broken_defs)
  moreover have "item (s (new_splitter_cal (example_raw [1000000] (- 19 / 10) 0))) 0 1 0 = 0"
    by (simp add: new_splitter_cal_def Network_def zeros_def)
  moreover have "item (s (splitter_cal (state_of (assembly_cell example_library broken_files
       (example_raw [1000000] (- 19 / 10) 0) [(1 / 10, 2, 4)])))) 0 1 0 = 21 / 4"
    unfolding assembly_cell_def assembly_loop_flat loop_pairs_eq run_pairs_def for_in_def
    by (simp add: broken_defs)
  ultimately show ?thesis by blast
qed

theorem error_aborts_keeping_earlier_entries_witness:
  "calibration_cell example_library broken_files = Inr (example_raw [1000000] (- 19 / 10) 0, [(1 / 10, 2, 4)]) \<and>
   assembly_cell example_library broken_files (example_raw [1000000] (- 19 / 10) 0) [(1 / 10, 2, 4)] =
     Raised IOError (state_of (assembly_cell example_library broken_files
       (example_raw [1000000] (- 19 / 10) 0) [(1 / 10, 2, 4)])) \<and>
   notebook example_library broken_files =
     Inr (Raised IOError (state_of (assembly_cell example_library broken_files
       (example_raw [1000000] (- 19 / 10) 0) [(1 / 10, 2, 4)]))) \<and>
   (\<exists>n<length loop_pairs. \<exists>mid.
      run_pairs example_library broken_files (take n loop_pairs)
        \<lparr>cal = [(1 / 10, 2, 4)], splitter_cal = new_splitter_cal (example_raw [1000000] (- 19 / 10) 0),
         history = []\<rparr> = Done mid \<and>
      iteration example_library broken_files (fst (loop_pairs ! n)) (snd (loop_pairs ! n)) mid =
        Raised IOError (state_of (assembly_cell example_library broken_files
          (example_raw [1000000] (- 19 / 10) 0) [(1 / 10, 2, 4)])))"
proof -
  note th = error_aborts_keeping_earlier_entries [of example_library broken_files IOError
      "example_raw [1000000] (- 19 / 10) 0" "[(1 / 10, 2, 4)]"
      "state_of (assembly_cell example_library broken_files (example_raw [1000000] (- 19 / 10) 0) [(1 / 10, 2, 4)])"]
  from th broken_calibration broken_assembly show ?thesis
    by blast
qed


section \<open>Frequency sweeps\<close>

text \<open>
  C8, as amended: the four ideal standards and the aggregate are constructed on the
  sweep of the raw short measurement, which is the network read from
  \<^verbatim>\<open>cal_short_raw.s2p\<close>; each has one matrix per point of that sweep, and the loop
  never changes the sweep of the aggregate.
\<close>

theorem constructed_networks_on_short_raw_sweep:
  "(\<forall>N\<in>set (ideals short_raw).
      frequency N = frequency short_raw \<and> nfreq (s N) = length (frequency short_raw)) \<and>
   length (ideals short_raw) = 4 \<and>
   frequency (new_splitter_cal short_raw) = frequency short_raw \<and>
   nfreq (s (new_splitter_cal short_raw)) = length (frequency short_raw) \<and>
   frequency (splitter_cal (state_of (assembly_cell L fs short_raw c))) = frequency short_raw \<and>
   nfreq (s (splitter_cal (state_of (assembly_cell L fs short_raw c)))) =
     length (frequency short_raw) \<and>
   (\<forall>sr c'. calibration_cell L fs = Inr (sr, c') \<longrightarrow>
      fs ''./data_MiniCircuits_splitter/cal_short_raw.s2p'' = Inr sr)"
proof -
  have 1: "\<forall>N\<in>set (ideals short_raw).
      frequency N = frequency short_raw \<and> nfreq (s N) = length (frequency short_raw)"
    by (simp add: ideals_def Let_def DefinedGammaZ0_def media_short_def media_open_def
        media_match_def media_thru_def ideal_def Network_def)
  have 2: "length (ideals short_raw) = 4"
    by (simp add: ideals_def Let_def)
  have 3: "frequency (new_splitter_cal short_raw) = frequency short_raw"
    "nfreq (s (new_splitter_cal short_raw)) = length (frequency short_raw)"
    by (simp_all add: new_splitter_cal_def Network_def zeros_def)
  let ?st = "\<lparr>cal = c, splitter_cal = new_splitter_cal short_raw, history = []\<rparr>"
  have "same_frame ?st (state_of (run_pairs L fs loop_pairs ?st))"
    by (rule run_pairs_same_frame)
  then have 4: "frequency (splitter_cal (state_of (assembly_cell L fs short_raw c))) =
      frequency short_raw"
    "nfreq (s (splitter_cal (state_of (assembly_cell L fs short_raw c)))) =
      length (frequency short_raw)"
    by (simp_all add: assembly_cell_def assembly_loop_flat same_frame_def 3)
  have 5: "\<forall>sr c'. calibration_cell L fs = Inr (sr, c') \<longrightarrow>
      fs ''./data_MiniCircuits_splitter/cal_short_raw.s2p'' = Inr sr"
    by (auto simp: calibration_cell_def split: sum.splits)
  from 1 2 3 4 5 show ?thesis by blast
qed

theorem constructed_networks_on_short_raw_sweep_witness:
  "media_thru (DefinedGammaZ0 [1000000, 2000000] 50) \<in>
     set (ideals (example_raw [1000000, 2000000] (- 19 / 10) 0)) \<and>
   frequency (media_thru (DefinedGammaZ0 [1000000, 2000000] 50)) = [1000000, 2000000] \<and>
   frequency (splitter_cal (state_of (assembly_cell example_library example_files
     (example_raw [1000000, 2000000] (- 19 / 10) 0)
     [(1 / 10, 2, 4), (1 / 10, 2, 4)]))) = [1000000, 2000000]"
proof -
  have m: "media_thru (DefinedGammaZ0 [1000000, 2000000] 50) \<in>
     set (ideals (example_raw [1000000, 2000000] (- 19 / 10) 0))"
    by (simp add: ideals_def Let_def example_raw_def Network_def)
  have fr: "frequency (example_raw [1000000, 2000000] (- 19 / 10) 0) = [1000000, 2000000]"
    by (simp add: example_raw_def Network_def)
  note th = constructed_networks_on_short_raw_sweep [of "example_raw [1000000, 2000000] (- 19 / 10) 0"
      example_library example_files
      "[(1 / 10, 2, 4), (1 / 10, 2, 4)]"]
  from th m have "frequency (media_thru (DefinedGammaZ0 [1000000, 2000000] 50)) =
      frequency (example_raw [1000000, 2000000] (- 19 / 10) 0)"
    by blast
  moreover from th have "frequency (splitter_cal (state_of (assembly_cell example_library
      example_files (example_raw [1000000, 2000000] (- 19 / 10) 0)
     [(1 / 10, 2, 4), (1 / 10, 2, 4)]))) =
      frequency (example_raw [1000000, 2000000] (- 19 / 10) 0)"
    by blast
  ultimately show ?thesis
    using m fr by simp
qed

lemma mixed_sweep_files_cal:
  "mixed_sweep_files ''./data_MiniCircuits_splitter/cal_short_raw.s2p'' =
     Inr (example_raw [1000000] (- 19 / 10) 0)"
  "mixed_sweep_files ''./data_MiniCircuits_splitter/cal_open_raw.s2p'' =
     Inr (example_raw [1000000] (21 / 10) 0)"
  "mixed_sweep_files ''./data_MiniCircuits_splitter/cal_match_raw.s2p'' =
     Inr (example_raw [1000000] (1 / 10) 0)"
  "mixed_sweep_files ''./data_MiniCircuits_splitter/cal_thru_raw.s2p'' =
     Inr (example_raw [1000000] (1 / 10) 4)"
  by (simp_all add: mixed_sweep_files_def example_files_cal) (simp_all add: dut_raw_path_def str_digit)

lemma mixed_sweep_files_dut:
  assumes "a \<in> {1, 2, 3, 4}" "b \<in> {1, 2, 3, 4}"
  shows "mixed_sweep_files (dut_raw_path a b) =
     Inr (example_raw (if a = 2 \<and> b = 1 then [2000000] else [1000000])
       (of_nat (10 * a + b) / 100) (of_nat (10 * a + b)))"
proof -
  have "dut_raw_path a b = dut_raw_path 2 1 \<longleftrightarrow> a = 2 \<and> b = 1"
    using assms by (elim insertE emptyE; simp add: dut_raw_path_def str_digit)
  then show ?thesis
    using assms by (auto simp: mixed_sweep_files_def example_files_dut)
qed

lemmas mixed_defs =
  iteration_def example_library_def mixed_sweep_files_dut
  assign_def get_col_def set_col_def new_splitter_cal_def Network_def zeros_def
  example_raw_def

text \<open>
  C8 as stated fails for the networks read from files: when \<^verbatim>\<open>dut_raw_21.s2p\<close> holds
  another sweep, the first iteration hands \<open>apply_cal\<close> a forward and a reverse
  measurement on different sweeps, and the loop stores the result in the aggregate,
  whose sweep is that of the raw short measurement.
\<close>

theorem mismatched_sweeps_counterexample:
  "calibration_cell example_library mixed_sweep_files =
     Inr (example_raw [1000000] (- 19 / 10) 0, [(1 / 10, 2, 4)]) \<and>
   is_Done (assembly_cell example_library mixed_sweep_files (example_raw [1000000] (- 19 / 10) 0) [(1 / 10, 2, 4)]) \<and>
   is_ApplyCal (hd (history (state_of (assembly_cell example_library mixed_sweep_files
     (example_raw [1000000] (- 19 / 10) 0) [(1 / 10, 2, 4)])))) \<and>
   frequency (fwd_of (hd (history (state_of (assembly_cell example_library mixed_sweep_files
     (example_raw [1000000] (- 19 / 10) 0) [(1 / 10, 2, 4)]))))) = [2000000] \<and>
   frequency (rev_of (hd (history (state_of (assembly_cell example_library mixed_sweep_files
     (example_raw [1000000] (- 19 / 10) 0) [(1 / 10, 2, 4)]))))) = [1000000] \<and>
   frequency (splitter_cal (state_of (assembly_cell example_library mixed_sweep_files
     (example_raw [1000000] (- 19 / 10) 0) [(1 / 10, 2, 4)]))) = [1000000]"
proof -
  have "calibration_cell example_library mixed_sweep_files =
     Inr (example_raw [1000000] (- 19 / 10) 0, [(1 / 10, 2, 4)])"
    using example_solve by (simp add: calibration_cell_def mixed_sweep_files_cal)
  moreover have "is_Done (assembly_cell example_library mixed_sweep_files
      (example_raw [1000000] (- 19 / 10) 0) [(1 / 10, 2, 4)])"
    unfolding assembly_cell_def assembly_loop_flat loop_pairs_eq run_pairs_def for_in_def
    by (simp add: mixed_defs)
  moreover have "is_ApplyCal (hd (history (state_of (assembly_cell example_library
      mixed_sweep_files (example_raw [1000000] (- 19 / 10) 0) [(1 / 10, 2, 4)]))))"
    unfolding assembly_cell_def assembly_loop_flat loop_pairs_eq run_pairs_def for_in_def
    by (simp add: mixed_defs)
  moreover have "frequency (fwd_of (hd (history (state_of (assembly_cell example_library
      mixed_sweep_files (example_raw [1000000] (- 19 / 10) 0) [(1 / 10, 2, 4)]))))) = [2000000]"
    unfolding assembly_cell_def assembly_loop_flat loop_pairs_eq run_pairs_def for_in_def
    by (simp add: mixed_defs)
  moreover have "frequency (rev_of (hd (history (state_of (assembly_cell example_library
      mixed_sweep_files (example_raw [1000000] (- 19 / 10) 0) [(1 / 10, 2, 4)]))))) = [1000000]"
    unfolding assembly_cell_def assembly_loop_flat loop_pairs_eq run_pairs_def for_in_def
    by (simp add: mixed_defs)
  moreover have "frequency (splitter_cal (state_of (assembly_cell example_library
      mixed_sweep_files (example_raw [1000000] (- 19 / 10) 0) [(1 / 10, 2, 4)]))) = [1000000]"
    unfolding assembly_cell_def assembly_loop_flat loop_pairs_eq run_pairs_def for_in_def
    by (simp add: mixed_defs)
  ultimately show ?thesis by blast
qed

end
